theory Spec2Isabelle
  imports Main "HOL-Library.Monad_Syntax"
begin

section \<open>Strings and character classes\<close>

text \<open>
  A JavaScript string is modelled as a \<open>string\<close>: a list of characters with codes
  0 to 255, read as the code units of the same value.  The classes below are the
  JavaScript classes restricted to that range.
\<close>

text \<open>\<open>\s\<close>, and the characters removed by \<open>trim()\<close>: tab, line feed, vertical tab,
  form feed, carriage return, space, no-break space.\<close>

definition isSpace :: "char \<Rightarrow> bool" where
  "isSpace c \<longleftrightarrow>
     c \<in> set [CHR 0x09, CHR 0x0A, CHR 0x0B, CHR 0x0C, CHR 0x0D, CHR 0x20, CHR 0xA0]"

text \<open>The line terminators: \<open>.\<close> does not match them, and \<open>$\<close> under the \<open>m\<close> flag
  matches in front of them.\<close>

definition isLineTerminator :: "char \<Rightarrow> bool" where
  "isLineTerminator c \<longleftrightarrow> c \<in> set [CHR 0x0A, CHR 0x0D]"

text \<open>\<open>\w\<close>\<close>

definition isWord :: "char \<Rightarrow> bool" where
  "isWord c \<longleftrightarrow>
     c \<in> set ''abcdefghijklmnopqrstuvwxyzABCDEFGHIJKLMNOPQRSTUVWXYZ0123456789_''"

text \<open>Case folding of the \<open>i\<close> flag and of \<open>toUpperCase()\<close> on the letters a to z; no
  other character of the range folds to a letter of a keyword.\<close>

definition upper :: "char \<Rightarrow> char" where
  "upper c =
     (case map_of (zip ''abcdefghijklmnopqrstuvwxyz'' ''ABCDEFGHIJKLMNOPQRSTUVWXYZ'') c of
        Some u \<Rightarrow> u
      | None \<Rightarrow> c)"

text \<open>A keyword of a pattern with the \<open>i\<close> flag, matched at the front of \<open>s\<close>.\<close>

definition starts_ci :: "string \<Rightarrow> string \<Rightarrow> bool" where
  "starts_ci kw s \<longleftrightarrow>
     length kw \<le> length s \<and> map upper (take (length kw) s) = map upper kw"

text \<open>\<open>[^WHERE|JOIN|GROUP|ORDER|HAVING|LIMIT|;]\<close> of \<open>parseFromClause\<close> and
  \<open>[^JOIN|WHERE|GROUP|ORDER|HAVING|LIMIT|;]\<close> of \<open>parseJoins\<close>, both under the \<open>i\<close> flag:
  a negated character class, so the brackets list single characters, and a character is
  in the class when its upper case is none of the listed ones.\<close>

definition from_class :: "char \<Rightarrow> bool" where
  "from_class c \<longleftrightarrow> upper c \<notin> set ''WHERE|JOIN|GROUP|ORDER|HAVING|LIMIT|;''"

definition on_class :: "char \<Rightarrow> bool" where
  "on_class c \<longleftrightarrow> upper c \<notin> set ''JOIN|WHERE|GROUP|ORDER|HAVING|LIMIT|;''"

text \<open>\<open>String.prototype.trim\<close>\<close>

definition trim :: "string \<Rightarrow> string" where
  "trim s = rev (dropWhile isSpace (rev (dropWhile isSpace s)))"

lemma length_dropWhile_less [termination_simp]:
  "length (dropWhile P xs) < Suc (length xs)"
  by (simp add: le_imp_less_Suc length_dropWhile_le)

text \<open>\<open>str.split(',')\<close>: every separator ends a piece; the empty string gives one empty
  piece.\<close>

fun split_on :: "char \<Rightarrow> string \<Rightarrow> string list" where
  "split_on d [] = [[]]"
| "split_on d (c # cs) =
     (if c = d then [] # split_on d cs
      else (case split_on d cs of
              p # ps \<Rightarrow> (c # p) # ps
            | [] \<Rightarrow> [[c]]))"

text \<open>\<open>str.split(/\s+/)\<close>: every maximal run of white space ends a piece.\<close>

fun split_ws :: "string \<Rightarrow> string list" where
  "split_ws [] = [[]]"
| "split_ws (c # cs) =
     (if isSpace c then [] # split_ws (dropWhile isSpace cs)
      else (case split_ws cs of
              p # ps \<Rightarrow> (c # p) # ps
            | [] \<Rightarrow> [[c]]))"

section \<open>Scanning a string with a pattern\<close>

text \<open>
  A pattern is modelled by a function that tries it at the front of a string and gives
  what the source reads from the match together with the number of characters matched
  (at least one for every pattern of \<open>src/sql-parser.js\<close>).

  \<open>scan_all\<close> is the loop \<open>while ((match = pattern.exec(str)) !== null)\<close> of a pattern
  with the \<open>g\<close> flag, and \<open>str.match(pattern)\<close> likewise: the leftmost match from
  \<open>lastIndex\<close>, then the leftmost match after it.  \<open>skip\<close> counts the characters still
  covered by the previous match.
\<close>

fun scan_all :: "(string \<Rightarrow> ('a \<times> nat) option) \<Rightarrow> nat \<Rightarrow> string \<Rightarrow> 'a list" where
  "scan_all m skip [] = []"
| "scan_all m skip (c # cs) =
     (if 0 < skip then scan_all m (skip - 1) cs
      else (case m (c # cs) of
              Some (x, n) \<Rightarrow> x # scan_all m (n - 1) cs
            | None \<Rightarrow> scan_all m 0 cs))"

text \<open>One \<open>pattern.exec(str)\<close> on a fresh pattern, or \<open>str.match(pattern)\<close> without the
  \<open>g\<close> flag: the leftmost match.\<close>

fun scan_first :: "(string \<Rightarrow> 'a option) \<Rightarrow> string \<Rightarrow> 'a option" where
  "scan_first m [] = None"
| "scan_first m (c # cs) =
     (case m (c # cs) of
        Some x \<Rightarrow> Some x
      | None \<Rightarrow> scan_first m cs)"

section \<open>The normalizer: \<open>cleanQuery\<close>\<close>

text \<open>\<open>.replace(/--.*$/gm, '')\<close>: from \<open>--\<close> to the end of the line; the line terminator
  stays.  (The second \<open>-\<close> is the first character that \<open>dropWhile\<close> removes.)\<close>

fun remove_line_comments :: "string \<Rightarrow> string" where
  "remove_line_comments [] = []"
| "remove_line_comments (c # cs) =
     (if c = CHR ''-'' \<and> take 1 cs = ''-''
      then remove_line_comments (dropWhile (\<lambda>x. \<not> isLineTerminator x) cs)
      else c # remove_line_comments cs)"

text \<open>The rest of the string after the first \<open>*/\<close>, if there is one.\<close>

fun after_close :: "string \<Rightarrow> string option" where
  "after_close (a # b # cs) =
     (if a = CHR ''*'' \<and> b = CHR ''/'' then Some cs else after_close (b # cs))"
| "after_close cs = None"

lemma after_close_length:
  "after_close cs = Some r \<Longrightarrow> length r < length cs"
  by (induction cs arbitrary: r rule: after_close.induct) (auto split: if_splits)

lemma after_close_drop_length [termination_simp]:
  "after_close (drop n cs) = Some r \<Longrightarrow> length r < Suc (length cs)"
  using after_close_length [of "drop n cs" r] by simp

text \<open>\<open>.replace(/\/\*[\s\S]*?\*\//g, '')\<close>: from \<open>/*\<close> to the first \<open>*/\<close> behind it; an
  unclosed \<open>/*\<close> stays.\<close>

fun remove_block_comments :: "string \<Rightarrow> string" where
  "remove_block_comments [] = []"
| "remove_block_comments (c # cs) =
     (if c = CHR ''/'' \<and> take 1 cs = ''*''
      then (case after_close (drop 1 cs) of
              Some r \<Rightarrow> remove_block_comments r
            | None \<Rightarrow> c # remove_block_comments cs)
      else c # remove_block_comments cs)"

text \<open>\<open>.replace(/\s+/g, ' ')\<close>\<close>

fun normalize_whitespace :: "string \<Rightarrow> string" where
  "normalize_whitespace [] = []"
| "normalize_whitespace (c # cs) =
     (if isSpace c then CHR '' '' # normalize_whitespace (dropWhile isSpace cs)
      else c # normalize_whitespace cs)"

definition cleanQuery_string :: "string \<Rightarrow> string" where
  "cleanQuery_string query =
     trim (normalize_whitespace (remove_block_comments (remove_line_comments query)))"

text \<open>The argument of \<open>parseQuery\<close> as a JavaScript value.  \<open>query.replace\<close> on
  \<open>null\<close> or \<open>undefined\<close> throws a TypeError.\<close>

datatype js_value = JSUndefined | JSNull | JSString string

datatype error = TypeError

fun cleanQuery :: "js_value \<Rightarrow> error + string" where
  "cleanQuery (JSString query) = Inr (cleanQuery_string query)"
| "cleanQuery JSUndefined = Inl TypeError"
| "cleanQuery JSNull = Inl TypeError"

section \<open>The lineage graph and the parser instance\<close>

text \<open>An entry of a table's \<open>columns\<close> array: \<open>{ name, alias }\<close>.\<close>

record table_column =
  tc_name :: string
  tc_alias :: "string option"

text \<open>\<open>{ id, name, alias, type, columns }\<close>; \<open>alias\<close> is \<open>null\<close> or a string.\<close>

record table =
  t_id :: string
  t_name :: string
  t_alias :: "string option"
  t_type :: string
  t_columns :: "table_column list"

text \<open>\<open>{ id, table, name, alias, type }\<close>\<close>

record column =
  c_id :: string
  c_table :: string
  c_name :: string
  c_alias :: "string option"
  c_type :: string

text \<open>\<open>{ id, source, sourceColumn, target, targetColumn, type }\<close>\<close>

record relationship =
  r_id :: string
  r_source :: string
  r_sourceColumn :: string
  r_target :: string
  r_targetColumn :: string
  r_type :: string

text \<open>The fields of a \<open>SQLParser\<close> instance.  A JavaScript \<open>Map\<close> keeps its keys in
  insertion order, so it is an association list with distinct keys.\<close>

record SQLParser =
  tables :: "(string \<times> table) list"
  relationships :: "relationship list"
  columns :: "(string \<times> column) list"

text \<open>The value returned by \<open>parseQuery\<close>.\<close>

record graph =
  g_tables :: "table list"
  g_relationships :: "relationship list"
  g_columns :: "column list"

text \<open>\<open>new SQLParser()\<close>\<close>

definition new_SQLParser :: SQLParser where
  "new_SQLParser = \<lparr>tables = [], relationships = [], columns = []\<rparr>"

text \<open>\<open>Map.prototype.has\<close>, \<open>set\<close> (a present key keeps its place, a new key goes to the
  end) and \<open>values\<close>; \<open>get\<close> is \<open>map_of\<close>.\<close>

definition map_has :: "('k \<times> 'v) list \<Rightarrow> 'k \<Rightarrow> bool" where
  "map_has m k \<longleftrightarrow> k \<in> set (map fst m)"

fun map_set :: "'k \<Rightarrow> 'v \<Rightarrow> ('k \<times> 'v) list \<Rightarrow> ('k \<times> 'v) list" where
  "map_set k v [] = [(k, v)]"
| "map_set k v (p # ps) = (if fst p = k then (k, v) # ps else p # map_set k v ps)"

definition map_values :: "('k \<times> 'v) list \<Rightarrow> 'v list" where
  "map_values m = map snd m"

section \<open>Registration: \<open>addTable\<close>, \<open>addColumn\<close>, \<open>addRelationship\<close>\<close>

text \<open>The characters removed by \<open>name.replace(/[`"'\[\]]/g, '')\<close>.\<close>

definition quote_chars :: "char list" where
  "quote_chars = [CHR 0x60, CHR 0x22, CHR 0x27, CHR ''['', CHR '']'']"

definition clean_name :: "string \<Rightarrow> string" where
  "clean_name name = filter (\<lambda>c. c \<notin> set quote_chars) name"

text \<open>\<open>alias || cleanName\<close>: \<open>null\<close> and the empty string are falsy.\<close>

definition table_id :: "string \<Rightarrow> string option \<Rightarrow> string" where
  "table_id name alias =
     (case alias of
        None \<Rightarrow> clean_name name
      | Some a \<Rightarrow> if a = [] then clean_name name else a)"

definition addTable :: "string \<Rightarrow> string option \<Rightarrow> string \<Rightarrow> SQLParser \<Rightarrow> SQLParser" where
  "addTable name alias type this =
     (let cleanName = clean_name name;
          tableId = table_id name alias
      in if \<not> map_has (tables this) tableId
         then this\<lparr>tables := map_set tableId
                  \<lparr>t_id = tableId, t_name = cleanName, t_alias = alias, t_type = type,
                   t_columns = []\<rparr> (tables this)\<rparr>
         else this)"

definition addColumn :: "string \<Rightarrow> string \<Rightarrow> string option \<Rightarrow> SQLParser \<Rightarrow> SQLParser" where
  "addColumn tableRef columnName alias this =
     (let columnId = tableRef @ ''.'' @ columnName;
          this1 = (if \<not> map_has (columns this) columnId
                   then this\<lparr>columns := map_set columnId
                          \<lparr>c_id = columnId, c_table = tableRef, c_name = columnName,
                           c_alias = alias, c_type = ''column''\<rparr> (columns this)\<rparr>
                   else this)
      in case map_of (tables this1) tableRef of
           None \<Rightarrow> this1
         | Some table \<Rightarrow>
             if \<not> list_ex (\<lambda>col. tc_name col = columnName) (t_columns table)
             then this1\<lparr>tables := map_set tableRef
                    (table\<lparr>t_columns := t_columns table @
                       [\<lparr>tc_name = columnName, tc_alias = alias\<rparr>]\<rparr>) (tables this1)\<rparr>
             else this1)"

definition addRelationship ::
  "string \<Rightarrow> string \<Rightarrow> string \<Rightarrow> string \<Rightarrow> string \<Rightarrow> SQLParser \<Rightarrow> SQLParser" where
  "addRelationship sourceTable sourceColumn targetTable targetColumn type this =
     this\<lparr>relationships := relationships this @
       [\<lparr>r_id = sourceTable @ ''.'' @ sourceColumn @ ''->'' @ targetTable @ ''.'' @ targetColumn,
         r_source = sourceTable, r_sourceColumn = sourceColumn,
         r_target = targetTable, r_targetColumn = targetColumn, r_type = type\<rparr>]\<rparr>"

section \<open>The depth-aware splitter: \<open>smartSplit\<close>\<close>

text \<open>The \<open>for\<close> loop over the characters, with the variables \<open>result\<close>, \<open>current\<close> and
  \<open>depth\<close>; the branches are in the order of the source's \<open>if\<close> \<open>else if\<close> chain.\<close>

fun smartSplit_loop ::
  "char \<Rightarrow> string \<Rightarrow> string list \<Rightarrow> string \<Rightarrow> int \<Rightarrow> string list \<times> string" where
  "smartSplit_loop delimiter [] result current depth = (result, current)"
| "smartSplit_loop delimiter (char # str) result current depth =
     (if char = CHR ''('' then smartSplit_loop delimiter str result (current @ [char]) (depth + 1)
      else if char = CHR '')'' then smartSplit_loop delimiter str result (current @ [char]) (depth - 1)
      else if char = delimiter \<and> depth = 0
           then smartSplit_loop delimiter str (result @ [trim current]) [] depth
      else smartSplit_loop delimiter str result (current @ [char]) depth)"

definition smartSplit :: "string \<Rightarrow> char \<Rightarrow> string list" where
  "smartSplit str delimiter =
     (case smartSplit_loop delimiter str [] [] 0 of
        (result, current) \<Rightarrow>
          if trim current \<noteq> [] then result @ [trim current] else result)"

section \<open>The patterns of the extractors\<close>

text \<open>
  Each pattern of the source is written as a function that tries it at the front of a
  string, from these pieces.  A greedy repetition \<open>X+\<close> is \<open>many1\<close>, the longest run:
  wherever it is used the next piece of the pattern cannot begin with a character of
  \<open>X\<close>, so no shorter run can lead to a match.  Where giving characters back, or taking an
  optional part, does lead to another match, the alternatives are tried in the order
  of the backtracking.
\<close>

definition many1 :: "(char \<Rightarrow> bool) \<Rightarrow> string \<Rightarrow> (string \<times> string) option" where
  "many1 P s = (if takeWhile P s = [] then None else Some (takeWhile P s, dropWhile P s))"

definition keyword :: "string \<Rightarrow> string \<Rightarrow> string option" where
  "keyword kw s = (if starts_ci kw s then Some (drop (length kw) s) else None)"

fun lit :: "char \<Rightarrow> string \<Rightarrow> string option" where
  "lit c [] = None"
| "lit c (x # xs) = (if x = c then Some xs else None)"

definition orelse :: "'a option \<Rightarrow> 'a option \<Rightarrow> 'a option" where
  "orelse a b = (case a of Some x \<Rightarrow> Some x | None \<Rightarrow> b)"

text \<open>The end of a pattern, \<open>\s+([^...]+)\<close> with the class \<open>cls\<close>, after the leading white
  space \<open>ws\<close> has been read: the capture is the longest run of the class; when there is
  none and \<open>ws\<close> has two characters or more, \<open>\s+\<close> gives its last character back
  and the capture is that character (white space is in the class).\<close>

definition class_capture ::
  "(char \<Rightarrow> bool) \<Rightarrow> string \<Rightarrow> string \<Rightarrow> (string \<times> string) option" where
  "class_capture cls ws r =
     (if takeWhile cls r \<noteq> [] then Some (takeWhile cls r, dropWhile cls r)
      else if 2 \<le> length ws then Some ([last ws], r)
      else None)"

text \<open>\<open>/FROM\s+([^WHERE|JOIN|GROUP|ORDER|HAVING|LIMIT|;]+)/gi\<close>; the result is the text
  of the whole match, as \<open>query.match\<close> returns it.\<close>

definition from_here :: "string \<Rightarrow> (string \<times> nat) option" where
  "from_here s =
     do {
       r \<leftarrow> keyword ''FROM'' s;
       (ws, r) \<leftarrow> many1 isSpace r;
       (body, r) \<leftarrow> class_capture from_class ws r;
       Some (take (length s - length r) s, length s - length r)
     }"

text \<open>\<open>match.replace(/FROM\s+/i, '')\<close>: the first \<open>FROM\<close> with white space behind it is
  removed together with that white space.\<close>

fun remove_from :: "string \<Rightarrow> string" where
  "remove_from [] = []"
| "remove_from (c # cs) =
     (case do { r \<leftarrow> keyword ''FROM'' (c # cs); many1 isSpace r } of
        Some (ws, r) \<Rightarrow> r
      | None \<Rightarrow> c # remove_from cs)"

text \<open>\<open>\s+ON\s+([^JOIN|WHERE|GROUP|ORDER|HAVING|LIMIT|;]+)\<close>, the end of the pattern of
  \<open>parseJoins\<close>: the condition and the rest of the string.\<close>

definition on_clause :: "string \<Rightarrow> (string \<times> string) option" where
  "on_clause s =
     do {
       (ws0, r) \<leftarrow> many1 isSpace s;
       r \<leftarrow> keyword ''ON'' r;
       (ws, r) \<leftarrow> many1 isSpace r;
       class_capture on_class ws r
     }"

text \<open>\<open>(?:\s+(?:AS\s+)?([^\s]+))?\s+ON\s+(...)\<close>, what follows the table name: first with
  the optional group and \<open>AS\<close>, then with the group and without \<open>AS\<close> (the alias is then
  the next word, whatever it is), then without the group (\<open>alias\<close> is \<open>undefined\<close>).\<close>

definition join_alias_on :: "string \<Rightarrow> (string option \<times> string \<times> string) option" where
  "join_alias_on s =
     orelse
       (do {
          (ws, r) \<leftarrow> many1 isSpace s;
          orelse
            (do {
               r \<leftarrow> keyword ''AS'' r;
               (ws1, r) \<leftarrow> many1 isSpace r;
               (alias, r) \<leftarrow> many1 (\<lambda>c. \<not> isSpace c) r;
               (onCondition, r) \<leftarrow> on_clause r;
               Some (Some alias, onCondition, r)
             })
            (do {
               (alias, r) \<leftarrow> many1 (\<lambda>c. \<not> isSpace c) r;
               (onCondition, r) \<leftarrow> on_clause r;
               Some (Some alias, onCondition, r)
             })
        })
       (do {
          (onCondition, r) \<leftarrow> on_clause s;
          Some (None, onCondition, r)
        })"

text \<open>\<open>\s*JOIN)\s+([^\s]+)\<close> and the rest, after the optional qualifier.\<close>

definition join_rest :: "string \<Rightarrow> ((string \<times> string option \<times> string) \<times> string) option" where
  "join_rest s =
     do {
       r \<leftarrow> keyword ''JOIN'' (dropWhile isSpace s);
       (ws, r) \<leftarrow> many1 isSpace r;
       (tableName, r) \<leftarrow> many1 (\<lambda>c. \<not> isSpace c) r;
       (alias, onCondition, r) \<leftarrow> join_alias_on r;
       Some ((tableName, alias, onCondition), r)
     }"

fun first_some :: "'a option list \<Rightarrow> 'a option" where
  "first_some [] = None"
| "first_some (x # xs) = orelse x (first_some xs)"

text \<open>The pattern of \<open>parseJoins\<close>,
  \<open>/((?:LEFT|RIGHT|INNER|FULL|CROSS)?\s*JOIN)\s+([^\s]+)(?:\s+(?:AS\s+)?([^\s]+))?\s+ON\s+([^JOIN|WHERE|GROUP|ORDER|HAVING|LIMIT|;]+)/gi\<close>:
  the qualifiers in the order of the alternation, then no qualifier.  The result is
  \<open>tableName\<close>, \<open>alias\<close> and \<open>onCondition\<close>.\<close>

definition join_here :: "string \<Rightarrow> ((string \<times> string option \<times> string) \<times> nat) option" where
  "join_here s =
     first_some
       (map (\<lambda>q. do {
                    r \<leftarrow> keyword q s;
                    (x, r) \<leftarrow> join_rest r;
                    Some (x, length s - length r)
                  })
          [''LEFT'', ''RIGHT'', ''INNER'', ''FULL'', ''CROSS'', []])"

text \<open>A lazy \<open>(.*?)\<close> in front of \<open>\s+KW\<close>: the shortest run of characters other than line
  terminators after which white space and the keyword follow.\<close>

fun lazy_until :: "string \<Rightarrow> string \<Rightarrow> string option" where
  "lazy_until kw [] = None"
| "lazy_until kw (c # cs) =
     (if isSpace c \<and> starts_ci kw (dropWhile isSpace cs) then Some []
      else if isLineTerminator c then None
      else map_option ((#) c) (lazy_until kw cs))"

text \<open>\<open>KW1\s+(.*?)\s+KW2\<close>: the capture.  When the lazy search fails with \<open>\s+\<close> holding
  all the white space behind \<open>KW1\<close>, \<open>\s+\<close> gives its last character back, and the match
  succeeds with an empty capture exactly when \<open>KW2\<close> follows that white space.\<close>

definition between_keywords :: "string \<Rightarrow> string \<Rightarrow> string \<Rightarrow> string option" where
  "between_keywords kw1 kw2 s =
     do {
       r \<leftarrow> keyword kw1 s;
       (ws, r) \<leftarrow> many1 isSpace r;
       orelse (lazy_until kw2 r)
              (if 2 \<le> length ws \<and> starts_ci kw2 r then Some [] else None)
     }"

text \<open>\<open>/SELECT\s+(.*?)\s+FROM/gi\<close> and \<open>/WITH\s+(.*?)\s+SELECT/gi\<close>\<close>

definition select_here :: "string \<Rightarrow> string option" where
  "select_here = between_keywords ''SELECT'' ''FROM''"

definition with_here :: "string \<Rightarrow> string option" where
  "with_here = between_keywords ''WITH'' ''SELECT''"

text \<open>\<open>/(\w+)\.(\w+)\s*=\s*(\w+)\.(\w+)/gi\<close>\<close>

definition condition_here :: "string \<Rightarrow> ((string \<times> string \<times> string \<times> string) \<times> nat) option" where
  "condition_here s =
     do {
       (leftTable, r) \<leftarrow> many1 isWord s;
       r \<leftarrow> lit CHR ''.'' r;
       (leftColumn, r) \<leftarrow> many1 isWord r;
       r \<leftarrow> lit CHR ''='' (dropWhile isSpace r);
       (rightTable, r) \<leftarrow> many1 isWord (dropWhile isSpace r);
       r \<leftarrow> lit CHR ''.'' r;
       (rightColumn, r) \<leftarrow> many1 isWord r;
       Some ((leftTable, leftColumn, rightTable, rightColumn), length s - length r)
     }"

text \<open>\<open>(?:\s+(?:AS\s+)?(\w+))?\<close>, the optional alias of a projected column: with \<open>AS\<close>,
  else the next word, else \<open>undefined\<close>.\<close>

definition column_alias :: "string \<Rightarrow> string option" where
  "column_alias s =
     do {
       (ws, r) \<leftarrow> many1 isSpace s;
       orelse
         (do {
            r \<leftarrow> keyword ''AS'' r;
            (ws1, r) \<leftarrow> many1 isSpace r;
            (alias, r) \<leftarrow> many1 isWord r;
            Some alias
          })
         (do {
            (alias, r) \<leftarrow> many1 isWord r;
            Some alias
          })
     }"

text \<open>\<open>/(\w+)\.(\w+)(?:\s+(?:AS\s+)?(\w+))?/i\<close>\<close>

definition column_here :: "string \<Rightarrow> (string \<times> string \<times> string option) option" where
  "column_here s =
     do {
       (tableRef, r) \<leftarrow> many1 isWord s;
       r \<leftarrow> lit CHR ''.'' r;
       (columnName, r) \<leftarrow> many1 isWord r;
       Some (tableRef, columnName, column_alias r)
     }"

text \<open>\<open>col.match(/^\w+\.\w+$/)\<close> is not \<open>null\<close>.\<close>

definition bare_qualified :: "string \<Rightarrow> bool" where
  "bare_qualified col \<longleftrightarrow>
     do {
       (tableRef, r) \<leftarrow> many1 isWord col;
       r \<leftarrow> lit CHR ''.'' r;
       (columnName, r) \<leftarrow> many1 isWord r;
       if r = [] then Some () else None
     } \<noteq> None"

text \<open>\<open>/(\w+)\s+AS\s*\((.*?)\)/gi\<close>: the body is the text up to the first \<open>)\<close>, and there
  is no match when a line terminator comes before it.\<close>

definition cte_here :: "string \<Rightarrow> ((string \<times> string) \<times> nat) option" where
  "cte_here s =
     do {
       (cteName, r) \<leftarrow> many1 isWord s;
       (ws, r) \<leftarrow> many1 isSpace r;
       r \<leftarrow> keyword ''AS'' r;
       r \<leftarrow> lit CHR ''('' (dropWhile isSpace r);
       (cteQuery, r) \<leftarrow> Some (takeWhile (\<lambda>c. c \<noteq> CHR '')'' \<and> \<not> isLineTerminator c) r,
                           dropWhile (\<lambda>c. c \<noteq> CHR '')'' \<and> \<not> isLineTerminator c) r);
       r \<leftarrow> lit CHR '')'' r;
       Some ((cteName, cteQuery), length s - length r)
     }"

section \<open>The extractors\<close>

text \<open>\<open>parts.forEach\<close> over the pieces of \<open>tableString.split(',')\<close>.  \<open>tableParts\<close> is never
  empty; its first element is the table name.\<close>

definition extractTablesFromString :: "string \<Rightarrow> SQLParser \<Rightarrow> SQLParser" where
  "extractTablesFromString tableString this =
     foldl (\<lambda>this part.
              let part = trim part
              in if CHR ''('' \<in> set part then this
                 else (case split_ws part of
                         [] \<Rightarrow> this
                       | tableName # rest \<Rightarrow>
                           let alias = (case rest of
                                          [] \<Rightarrow> None
                                        | second # rest' \<Rightarrow>
                                            if map upper second \<noteq> ''AS''
                                            then Some (last (tableName # rest))
                                            else None)
                           in addTable tableName alias ''table'' this))
       this (split_on CHR '','' tableString)"

definition parseFromClause :: "string \<Rightarrow> SQLParser \<Rightarrow> SQLParser" where
  "parseFromClause query this =
     foldl (\<lambda>this match.
              let tablesPart = trim (remove_from match)
              in extractTablesFromString tablesPart this)
       this (scan_all from_here 0 query)"

definition parseJoinCondition :: "string \<Rightarrow> SQLParser \<Rightarrow> SQLParser" where
  "parseJoinCondition condition this =
     foldl (\<lambda>this (leftTable, leftColumn, rightTable, rightColumn).
              addRelationship leftTable leftColumn rightTable rightColumn ''join'' this)
       this (scan_all condition_here 0 condition)"

definition parseJoins :: "string \<Rightarrow> SQLParser \<Rightarrow> SQLParser" where
  "parseJoins query this =
     foldl (\<lambda>this (tableName, alias, onCondition).
              parseJoinCondition onCondition (addTable tableName alias ''table'' this))
       this (scan_all join_here 0 query)"

definition parseSelectColumns :: "string \<Rightarrow> SQLParser \<Rightarrow> SQLParser" where
  "parseSelectColumns selectClause this =
     (if trim selectClause = ''*'' then this
      else foldl (\<lambda>this col.
                    let col = trim col
                    in if CHR ''('' \<in> set col \<and> \<not> bare_qualified col then this
                       else (case scan_first column_here col of
                               None \<Rightarrow> this
                             | Some (tableRef, columnName, alias) \<Rightarrow>
                                 addColumn tableRef columnName alias this))
             this (smartSplit selectClause CHR '',''))"

definition parseSelectClause :: "string \<Rightarrow> SQLParser \<Rightarrow> SQLParser" where
  "parseSelectClause query this =
     (case scan_first select_here query of
        None \<Rightarrow> this
      | Some selectClause \<Rightarrow> parseSelectColumns selectClause this)"

text \<open>The value \<open>parseQuery\<close> returns: the tables and columns in insertion order and
  the relationship list.\<close>

definition graph_of :: "SQLParser \<Rightarrow> graph" where
  "graph_of this =
     \<lparr>g_tables = map_values (tables this),
      g_relationships = relationships this,
      g_columns = map_values (columns this)\<rparr>"

text \<open>
  \<open>parseCTEs\<close> calls \<open>parseQuery\<close> on a new parser for every body.  The call is the
  parameter \<open>subParse\<close>, which \<open>parseQuery\<close> below instantiates with itself.  An
  exception thrown by the inner call leaves \<open>parseCTEs\<close> where it is thrown: the result
  is the exception, if any, and the state of the instance at that point.
\<close>

fun parseCTEs_loop ::
  "(string \<Rightarrow> error + graph) \<Rightarrow> (string \<times> string) list \<Rightarrow> SQLParser
     \<Rightarrow> error option \<times> SQLParser" where
  "parseCTEs_loop subParse [] this = (None, this)"
| "parseCTEs_loop subParse ((cteName, cteQuery) # matches) this =
     (let this1 = addTable cteName None ''cte'' this
      in case subParse cteQuery of
           Inl e \<Rightarrow> (Some e, this1)
         | Inr subResult \<Rightarrow>
             parseCTEs_loop subParse matches
               (foldl (\<lambda>this table.
                         addRelationship (t_name table) ''*'' cteName ''*'' ''cte'' this)
                  this1 (g_tables subResult)))"

definition parseCTEs ::
  "(string \<Rightarrow> error + graph) \<Rightarrow> string \<Rightarrow> SQLParser \<Rightarrow> error option \<times> SQLParser" where
  "parseCTEs subParse withClause this =
     parseCTEs_loop subParse (scan_all cte_here 0 withClause) this"

definition parseWithClause ::
  "(string \<Rightarrow> error + graph) \<Rightarrow> string \<Rightarrow> SQLParser \<Rightarrow> error option \<times> SQLParser" where
  "parseWithClause subParse query this =
     (case scan_first with_here query of
        None \<Rightarrow> (None, this)
      | Some withClause \<Rightarrow> parseCTEs subParse withClause this)"

section \<open>\<open>parseQuery\<close>\<close>


lemma many1_length:
  assumes "many1 P s = Some (w, r)"
  shows "length r < length s"
proof -
  from assms have w: "takeWhile P s \<noteq> []" and r: "r = dropWhile P s"
    by (auto simp: many1_def split: if_splits)
  have "length (takeWhile P s @ dropWhile P s) = length s"
    by (simp only: takeWhile_dropWhile_id)
  with w r show ?thesis by (cases "takeWhile P s") auto
qed

lemma keyword_length: "keyword kw s = Some r \<Longrightarrow> length r \<le> length s"
  by (auto simp: keyword_def split: if_splits)

lemma lit_length: "lit c s = Some r \<Longrightarrow> length r < length s"
  by (cases s) (auto split: if_splits)

lemma scan_all_source:
  "x \<in> set (scan_all m k s) \<Longrightarrow> \<exists>t n. m t = Some (x, n) \<and> length t \<le> length s"
proof (induction s arbitrary: k)
  case Nil
  then show ?case by simp
next
  case (Cons c cs)
  show ?case
  proof (cases "0 < k")
    case True
    with Cons.prems have "x \<in> set (scan_all m (k - 1) cs)" by simp
    from Cons.IH [OF this] show ?thesis by (auto intro: le_SucI)
  next
    case False
    show ?thesis
    proof (cases "m (c # cs)")
      case None
      with False Cons.prems have "x \<in> set (scan_all m 0 cs)" by simp
      from Cons.IH [OF this] show ?thesis by (auto intro: le_SucI)
    next
      case (Some p)
      obtain y n where p: "p = (y, n)" by (cases p)
      with False Some Cons.prems have "x = y \<or> x \<in> set (scan_all m (n - 1) cs)" by simp
      then show ?thesis
      proof
        assume "x = y"
        with Some p show ?thesis by auto
      next
        assume "x \<in> set (scan_all m (n - 1) cs)"
        from Cons.IH [OF this] show ?thesis by (auto intro: le_SucI)
      qed
    qed
  qed
qed

lemma scan_first_source:
  "scan_first m s = Some x \<Longrightarrow> \<exists>t. m t = Some x \<and> length t \<le> length s"
proof (induction s)
  case Nil
  then show ?case by simp
next
  case (Cons c cs)
  show ?case
  proof (cases "m (c # cs)")
    case None
    with Cons.prems have "scan_first m cs = Some x" by simp
    from Cons.IH [OF this] show ?thesis by (auto intro: le_SucI)
  next
    case (Some y)
    with Cons.prems show ?thesis by auto
  qed
qed

lemma cte_here_length:
  assumes "cte_here s = Some ((cteName, cteQuery), n)"
  shows "length cteQuery < length s"
proof -
  from assms obtain r1 r2 r3 r4 ws where
    a: "many1 isWord s = Some (cteName, r1)" and
    b: "many1 isSpace r1 = Some (ws, r2)" and
    c: "keyword ''AS'' r2 = Some r3" and
    d: "lit CHR ''('' (dropWhile isSpace r3) = Some r4" and
    e: "cteQuery = takeWhile (\<lambda>c. c \<noteq> CHR '')'' \<and> \<not> isLineTerminator c) r4"
    by (auto simp: cte_here_def Option.bind_eq_Some_conv)
  have "length cteQuery \<le> length r4"
    unfolding e by (rule length_takeWhile_le)
  also have "length r4 < length (dropWhile isSpace r3)"
    using d by (rule lit_length)
  also have "\<dots> \<le> length r3"
    by (rule length_dropWhile_le)
  also have "\<dots> \<le> length r2"
    using c by (rule keyword_length)
  also have "\<dots> < length r1"
    using b by (rule many1_length)
  also have "\<dots> < length s"
    using a by (rule many1_length)
  finally show ?thesis .
qed

lemma lazy_until_length: "lazy_until kw r = Some c \<Longrightarrow> length c \<le> length r"
  by (induction r arbitrary: c) (auto split: if_splits)

lemma between_keywords_length:
  assumes "between_keywords kw1 kw2 s = Some c"
  shows "length c < length s"
proof -
  from assms obtain r1 r2 ws where
    a: "keyword kw1 s = Some r1" and
    b: "many1 isSpace r1 = Some (ws, r2)" and
    c: "lazy_until kw2 r2 = Some c \<or> c = []"
    by (auto simp: between_keywords_def orelse_def Option.bind_eq_Some_conv
             split: option.splits if_splits)
  from c have "length c \<le> length r2"
    by (auto dest: lazy_until_length)
  also have "\<dots> < length r1"
    using b by (rule many1_length)
  also have "\<dots> \<le> length s"
    using a by (rule keyword_length)
  finally show ?thesis .
qed

lemma parseCTEs_loop_cong:
  "(\<And>cteName cteQuery. (cteName, cteQuery) \<in> set matches \<Longrightarrow> f cteQuery = g cteQuery)
   \<Longrightarrow> parseCTEs_loop f matches this = parseCTEs_loop g matches this"
proof (induction matches arbitrary: this)
  case Nil
  show ?case by simp
next
  case (Cons p matches)
  obtain cteName cteQuery where p: "p = (cteName, cteQuery)" by (cases p)
  have head: "f cteQuery = g cteQuery"
    using Cons.prems [of cteName cteQuery] p by simp
  have tail: "\<And>this'. parseCTEs_loop f matches this' = parseCTEs_loop g matches this'"
    using Cons.IH Cons.prems by auto
  show ?case
    unfolding p by (simp add: head tail Let_def split: sum.splits)
qed

lemma cte_body_shorter:
  assumes w: "scan_first with_here query = Some withClause"
    and m: "(cteName, cteQuery) \<in> set (scan_all cte_here 0 withClause)"
  shows "length cteQuery < length query"
proof -
  from scan_all_source [OF m] obtain t n where
    t: "cte_here t = Some ((cteName, cteQuery), n)" "length t \<le> length withClause"
    by blast
  from scan_first_source [OF w] obtain u where
    u: "with_here u = Some withClause" "length u \<le> length query"
    by blast
  have "length cteQuery < length t"
    using t(1) by (rule cte_here_length)
  also note t(2)
  also have "length withClause < length u"
    using u(1) unfolding with_here_def by (rule between_keywords_length)
  also note u(2)
  finally show ?thesis .
qed

lemma parseWithClause_cong [fundef_cong]:
  assumes "query = query'" and "this = this'"
    and "\<And>cteQuery. length cteQuery < length query' \<Longrightarrow> subParse cteQuery = subParse' cteQuery"
  shows "parseWithClause subParse query this = parseWithClause subParse' query' this'"
proof (cases "scan_first with_here query'")
  case None
  with assms(1,2) show ?thesis by (simp add: parseWithClause_def)
next
  case (Some withClause)
  have "parseCTEs_loop subParse (scan_all cte_here 0 withClause) this'
      = parseCTEs_loop subParse' (scan_all cte_here 0 withClause) this'"
    by (rule parseCTEs_loop_cong) (auto intro: assms(3) cte_body_shorter [OF Some])
  with Some assms(1,2) show ?thesis by (simp add: parseWithClause_def parseCTEs_def)
qed

lemma remove_line_comments_length: "length (remove_line_comments s) \<le> length s"
proof (induction s rule: remove_line_comments.induct)
  case 1
  show ?case by simp
next
  case (2 c cs)
  show ?case
  proof (cases "c = CHR ''-'' \<and> take 1 cs = ''-''")
    case True
    have "length (dropWhile (\<lambda>x. \<not> isLineTerminator x) cs) \<le> length cs"
      by (rule length_dropWhile_le)
    with True "2.IH"(1) [OF True] show ?thesis by simp
  next
    case False
    with "2.IH"(2) [OF False] show ?thesis by auto
  qed
qed

lemma remove_block_comments_length: "length (remove_block_comments s) \<le> length s"
proof (induction s rule: remove_block_comments.induct)
  case 1
  show ?case by simp
next
  case (2 c cs)
  show ?case
  proof (cases "c = CHR ''/'' \<and> take 1 cs = ''*''")
    case True
    show ?thesis
    proof (cases "after_close (drop 1 cs)")
      case None
      with True "2.IH"(1) [OF True None] show ?thesis by simp
    next
      case (Some r)
      from after_close_length [OF Some] have "length r \<le> length cs" by simp
      with True Some "2.IH"(2) [OF True Some] show ?thesis by simp
    qed
  next
    case False
    with "2.IH"(3) [OF False] show ?thesis by auto
  qed
qed

lemma normalize_whitespace_length: "length (normalize_whitespace s) \<le> length s"
proof (induction s rule: normalize_whitespace.induct)
  case 1
  show ?case by simp
next
  case (2 c cs)
  have "length (dropWhile isSpace cs) \<le> length cs"
    by (rule length_dropWhile_le)
  with 2 show ?case by (cases "isSpace c") auto
qed

lemma trim_length: "length (trim s) \<le> length s"
proof -
  have "length (trim s) = length (dropWhile isSpace (rev (dropWhile isSpace s)))"
    by (simp add: trim_def)
  also have "\<dots> \<le> length (rev (dropWhile isSpace s))"
    by (rule length_dropWhile_le)
  also have "\<dots> = length (dropWhile isSpace s)"
    by simp
  also have "\<dots> \<le> length s"
    by (rule length_dropWhile_le)
  finally show ?thesis .
qed

lemma cleanQuery_string_length: "length (cleanQuery_string query) \<le> length query"
proof -
  have "length (cleanQuery_string query)
      \<le> length (normalize_whitespace (remove_block_comments (remove_line_comments query)))"
    unfolding cleanQuery_string_def by (rule trim_length)
  also have "\<dots> \<le> length (remove_block_comments (remove_line_comments query))"
    by (rule normalize_whitespace_length)
  also have "\<dots> \<le> length (remove_line_comments query)"
    by (rule remove_block_comments_length)
  also have "\<dots> \<le> length query"
    by (rule remove_line_comments_length)
  finally show ?thesis .
qed

text \<open>The length of the text of the argument, for the termination of \<open>parseQuery\<close>.\<close>

fun text_length :: "js_value \<Rightarrow> nat" where
  "text_length (JSString s) = length s"
| "text_length JSUndefined = 0"
| "text_length JSNull = 0"

lemma cleanQuery_length: "cleanQuery v = Inr c \<Longrightarrow> length c \<le> text_length v"
  by (cases v) (auto simp: cleanQuery_string_length)

text \<open>
  \<open>parseQuery\<close> as a method: it takes the argument and the state of the instance, and
  gives the returned graph, or the exception thrown, together with the state of the
  instance afterwards.  \<open>cleanQuery\<close> runs before the state is reset.
\<close>

function parseQuery :: "js_value \<Rightarrow> SQLParser \<Rightarrow> (error + graph) \<times> SQLParser" where
  "parseQuery sqlQuery this =
     (case cleanQuery sqlQuery of
        Inl e \<Rightarrow> (Inl e, this)
      | Inr cleaned \<Rightarrow>
          (let this0 = this\<lparr>tables := [], relationships := [], columns := []\<rparr>;
               this1 = parseFromClause cleaned this0;
               this2 = parseJoins cleaned this1;
               this3 = parseSelectClause cleaned this2
           in case parseWithClause
                     (\<lambda>cteQuery. fst (parseQuery (JSString cteQuery) new_SQLParser))
                     cleaned this3 of
                (Some e, this4) \<Rightarrow> (Inl e, this4)
              | (None, this4) \<Rightarrow> (Inr (graph_of this4), this4)))"
  by pat_completeness auto
termination
proof (relation "measure (\<lambda>(v, this). text_length v)")
  show "wf (measure (\<lambda>(v, this). text_length v))" by simp
next
  fix sqlQuery :: js_value and this :: SQLParser and cleaned cteQuery :: string
  assume "cleanQuery sqlQuery = Inr cleaned" and "length cteQuery < length cleaned"
  then have "length cteQuery < text_length sqlQuery"
    by (auto dest: cleanQuery_length)
  then show "((JSString cteQuery, new_SQLParser), (sqlQuery, this))
             \<in> measure (\<lambda>(v, this). text_length v)"
    by simp
qed

declare parseQuery.simps [simp del]

text \<open>\<open>new SQLParser().parseQuery(cteQuery)\<close>, the call of \<open>parseCTEs\<close>.\<close>

definition subParse :: "string \<Rightarrow> error + graph" where
  "subParse cteQuery = fst (parseQuery (JSString cteQuery) new_SQLParser)"

text \<open>The state of the instance after \<open>parseFromClause\<close>, \<open>parseJoins\<close> and
  \<open>parseSelectClause\<close> have run on the normalized text, from the reset state.\<close>

definition first_passes :: "string \<Rightarrow> SQLParser" where
  "first_passes cleaned =
     parseSelectClause cleaned (parseJoins cleaned (parseFromClause cleaned new_SQLParser))"

text \<open>The names and bodies that \<open>parseWithClause\<close> and \<open>parseCTEs\<close> find in the
  normalized text.\<close>

definition cte_matches :: "string \<Rightarrow> (string \<times> string) list" where
  "cte_matches cleaned =
     (case scan_first with_here cleaned of
        None \<Rightarrow> []
      | Some withClause \<Rightarrow> scan_all cte_here 0 withClause)"

text \<open>The edge that \<open>parseCTEs\<close> adds for a table of a sub-result.\<close>

definition cte_edge :: "string \<Rightarrow> table \<Rightarrow> relationship" where
  "cte_edge cteName table =
     \<lparr>r_id = t_name table @ ''.'' @ ''*'' @ ''->'' @ cteName @ ''.'' @ ''*'',
      r_source = t_name table, r_sourceColumn = ''*'',
      r_target = cteName, r_targetColumn = ''*'', r_type = ''cte''\<rparr>"

text \<open>The tables of a returned graph; none when the call has thrown.\<close>

definition returned_tables :: "error + graph \<Rightarrow> table list" where
  "returned_tables res = (case res of Inl e \<Rightarrow> [] | Inr g \<Rightarrow> g_tables g)"

text \<open>What \<open>parseCTEs\<close> does for one match when the inner call returns: it registers the
  name with the kind \<open>cte\<close> and adds an edge for every table of the sub-result.\<close>

fun cte_step ::
  "(string \<Rightarrow> error + graph) \<Rightarrow> SQLParser \<Rightarrow> string \<times> string \<Rightarrow> SQLParser" where
  "cte_step sub this (cteName, cteQuery) =
     foldl (\<lambda>this table. addRelationship (t_name table) ''*'' cteName ''*'' ''cte'' this)
       (addTable cteName None ''cte'' this) (returned_tables (sub cteQuery))"

text \<open>The state of the instance after all four passes.\<close>

definition after_ctes :: "string \<Rightarrow> SQLParser" where
  "after_ctes cleaned = foldl (cte_step subParse) (first_passes cleaned) (cte_matches cleaned)"


section \<open>The splitter as the specification words it\<close>

text \<open>
  The specification of the depth-aware splitter, written from its words and not from
  the loop: every character is paired with the parenthesis depth in front of it (one
  more after each \<open>(\<close>, one less after each \<open>)\<close>); the string is cut at the occurrences of
  the delimiter whose depth is zero; the segments are trimmed; the last segment is
  left out when it is empty after trimming.
\<close>

definition depth_after :: "char \<Rightarrow> int \<Rightarrow> int" where
  "depth_after c k = (if c = CHR ''('' then k + 1 else if c = CHR '')'' then k - 1 else k)"

fun with_depth :: "int \<Rightarrow> string \<Rightarrow> (char \<times> int) list" where
  "with_depth k [] = []"
| "with_depth k (c # cs) = (c, k) # with_depth (depth_after c k) cs"

fun cut_where :: "('a \<Rightarrow> bool) \<Rightarrow> 'a list \<Rightarrow> 'a list list" where
  "cut_where P [] = [[]]"
| "cut_where P (x # xs) =
     (if P x then [] # cut_where P xs
      else (case cut_where P xs of
              p # ps \<Rightarrow> (x # p) # ps
            | [] \<Rightarrow> [[x]]))"

definition depth_zero_segments :: "char \<Rightarrow> int \<Rightarrow> string \<Rightarrow> string list" where
  "depth_zero_segments delimiter k str =
     map (map fst) (cut_where (\<lambda>(c, depth). c = delimiter \<and> depth = 0) (with_depth k str))"

definition spec_split :: "string \<Rightarrow> char \<Rightarrow> string list" where
  "spec_split str delimiter =
     (let segments = depth_zero_segments delimiter 0 str
      in map trim (butlast segments) @
         (if trim (last segments) = [] then [] else [trim (last segments)]))"

text \<open>\<open>cur\<close> put in front of the first of a list of segments.\<close>

fun prepend :: "string \<Rightarrow> string list \<Rightarrow> string list" where
  "prepend cur [] = [cur]"
| "prepend cur (p # ps) = (cur @ p) # ps"

section \<open>Facts about the registration functions\<close>

lemma map_of_map_set:
  "map_of (map_set k v m) k' = (if k' = k then Some v else map_of m k')"
  by (induction m) auto

lemma map_has_map_of: "map_has m k \<longleftrightarrow> map_of m k \<noteq> None"
  by (induction m) (auto simp: map_has_def)

lemma addTable_present:
  "map_has (tables this) (table_id name alias) \<Longrightarrow> addTable name alias type this = this"
  by (simp add: addTable_def Let_def)

lemma addTable_lookup_other:
  "tableId \<noteq> table_id name alias \<Longrightarrow>
   map_of (tables (addTable name alias type this)) tableId = map_of (tables this) tableId"
  by (simp add: addTable_def Let_def map_of_map_set)

lemma addTable_registers:
  "map_has (tables (addTable name alias type this)) (table_id name alias)"
  by (simp add: addTable_def Let_def map_has_map_of map_of_map_set)

lemma addTable_keeps_entry:
  assumes "map_of (tables this) tableId = Some entry"
  shows "map_of (tables (addTable name alias type this)) tableId = Some entry"
proof (cases "tableId = table_id name alias")
  case True
  with assms have "map_has (tables this) (table_id name alias)"
    by (simp add: map_has_map_of)
  then have "addTable name alias type this = this"
    by (rule addTable_present)
  with assms show ?thesis by simp
next
  case False
  with assms show ?thesis by (simp add: addTable_lookup_other)
qed

lemma registrations_keep_entry:
  "map_of (tables this) tableId = Some entry \<Longrightarrow>
   map_of (tables (foldl (\<lambda>this (name, alias, type). addTable name alias type this)
                     this registrations)) tableId = Some entry"
proof (induction registrations arbitrary: this)
  case Nil
  then show ?case by simp
next
  case (Cons r registrations)
  obtain name al kind where r: "r = (name, al, kind)" by (cases r)
  have "map_of (tables (addTable name al kind this)) tableId = Some entry"
    using Cons.prems by (rule addTable_keeps_entry)
  from Cons.IH [OF this] show ?case by (simp add: r)
qed

lemma addTable_relationships [simp]:
  "relationships (addTable name alias type this) = relationships this"
  by (simp add: addTable_def Let_def)

lemma addTable_columns [simp]:
  "columns (addTable name alias type this) = columns this"
  by (simp add: addTable_def Let_def)

lemma addRelationship_tables [simp]:
  "tables (addRelationship s sc t tc type this) = tables this"
  by (simp add: addRelationship_def)

lemma addRelationship_columns [simp]:
  "columns (addRelationship s sc t tc type this) = columns this"
  by (simp add: addRelationship_def)

lemma addRelationship_relationships:
  "relationships (addRelationship s sc t tc type this) =
   relationships this @
     [\<lparr>r_id = s @ ''.'' @ sc @ ''->'' @ t @ ''.'' @ tc, r_source = s, r_sourceColumn = sc,
       r_target = t, r_targetColumn = tc, r_type = type\<rparr>]"
  by (simp add: addRelationship_def)

section \<open>Facts about \<open>parseQuery\<close>\<close>

lemma reset_state:
  "this\<lparr>tables := [], relationships := [], columns := []\<rparr> = new_SQLParser"
  by (cases this) (simp add: new_SQLParser_def)

text \<open>One unfolding of \<open>parseQuery\<close> on a string.\<close>

lemma parseQuery_JSString:
  "parseQuery (JSString query) this =
     (case parseWithClause subParse (cleanQuery_string query)
             (first_passes (cleanQuery_string query)) of
        (Some e, this4) \<Rightarrow> (Inl e, this4)
      | (None, this4) \<Rightarrow> (Inr (graph_of this4), this4))"
proof -
  have sub: "(\<lambda>cteQuery. fst (parseQuery (JSString cteQuery) new_SQLParser)) = subParse"
    by (rule ext) (simp add: subParse_def)
  show ?thesis
    by (subst parseQuery.simps) (simp add: sub reset_state first_passes_def Let_def)
qed

lemma parseQuery_absent:
  "parseQuery JSNull this = (Inl TypeError, this)"
  "parseQuery JSUndefined this = (Inl TypeError, this)"
  by (subst parseQuery.simps, simp)+

lemma parseQuery_state_independent:
  "parseQuery (JSString query) this = parseQuery (JSString query) this'"
  by (simp only: parseQuery_JSString)

lemma parseWithClause_matches:
  "parseWithClause sub cleaned this = parseCTEs_loop sub (cte_matches cleaned) this"
  by (simp add: parseWithClause_def parseCTEs_def cte_matches_def split: option.splits)

lemma parseQuery_no_cte:
  assumes "cte_matches (cleanQuery_string query) = []"
  shows "parseQuery (JSString query) this =
         (Inr (graph_of (first_passes (cleanQuery_string query))),
          first_passes (cleanQuery_string query))"
  by (simp add: parseQuery_JSString parseWithClause_matches assms)

text \<open>The inner calls of \<open>parseCTEs\<close> never throw, so \<open>parseQuery\<close> on a string returns a
  graph, which the four passes determine.\<close>

lemma parseCTEs_loop_returns:
  "(\<And>cteName cteQuery. (cteName, cteQuery) \<in> set matches \<Longrightarrow> \<exists>g. sub cteQuery = Inr g)
   \<Longrightarrow> parseCTEs_loop sub matches this = (None, foldl (cte_step sub) this matches)"
proof (induction matches arbitrary: this)
  case Nil
  show ?case by simp
next
  case (Cons m matches)
  obtain cteName cteQuery where m: "m = (cteName, cteQuery)" by (cases m)
  from Cons.prems [of cteName cteQuery] m obtain g where g: "sub cteQuery = Inr g" by auto
  have rest: "\<And>this'. parseCTEs_loop sub matches this' = (None, foldl (cte_step sub) this' matches)"
    using Cons.IH Cons.prems by auto
  show ?case
    by (simp add: m g rest returned_tables_def)
qed

lemma cte_matches_shorter:
  assumes "(cteName, cteQuery) \<in> set (cte_matches cleaned)"
  shows "length cteQuery < length cleaned"
proof (cases "scan_first with_here cleaned")
  case None
  with assms show ?thesis by (simp add: cte_matches_def)
next
  case (Some withClause)
  with assms have "(cteName, cteQuery) \<in> set (scan_all cte_here 0 withClause)"
    by (simp add: cte_matches_def)
  with Some show ?thesis by (rule cte_body_shorter)
qed

lemma subParse_returns: "\<exists>g. subParse cteQuery = Inr g"
proof (induction "length cteQuery" arbitrary: cteQuery rule: less_induct)
  case less
  let ?c = "cleanQuery_string cteQuery"
  have "parseCTEs_loop subParse (cte_matches ?c) (first_passes ?c)
      = (None, foldl (cte_step subParse) (first_passes ?c) (cte_matches ?c))"
  proof (rule parseCTEs_loop_returns)
    fix n b
    assume "(n, b) \<in> set (cte_matches ?c)"
    then have "length b < length ?c" by (rule cte_matches_shorter)
    also have "\<dots> \<le> length cteQuery" by (rule cleanQuery_string_length)
    finally show "\<exists>g. subParse b = Inr g" by (rule less.hyps)
  qed
  then show ?case
    by (simp add: subParse_def parseQuery_JSString parseWithClause_matches)
qed

lemma parseQuery_result:
  "parseQuery (JSString query) this =
     (Inr (graph_of (after_ctes (cleanQuery_string query))), after_ctes (cleanQuery_string query))"
proof -
  have "parseCTEs_loop subParse (cte_matches (cleanQuery_string query))
          (first_passes (cleanQuery_string query))
      = (None, after_ctes (cleanQuery_string query))"
    unfolding after_ctes_def by (rule parseCTEs_loop_returns) (rule subParse_returns)
  then show ?thesis
    by (simp add: parseQuery_JSString parseWithClause_matches)
qed

lemma subParse_result:
  "subParse cteQuery = Inr (graph_of (after_ctes (cleanQuery_string cteQuery)))"
  by (simp add: subParse_def parseQuery_result)

text \<open>Evaluating \<open>parseQuery\<close> on a text without a CTE.\<close>

lemma parseQuery_eval_no_cte:
  assumes "cte_matches (cleanQuery_string query) = []"
    and "graph_of (first_passes (cleanQuery_string query)) = g"
  shows "fst (parseQuery (JSString query) this) = Inr g"
  using assms by (simp add: parseQuery_result after_ctes_def)

lemma subParse_eval_no_cte:
  assumes "cte_matches (cleanQuery_string cteQuery) = []"
    and "graph_of (first_passes (cleanQuery_string cteQuery)) = g"
  shows "subParse cteQuery = Inr g"
  using assms by (simp add: subParse_result after_ctes_def)

text \<open>What the CTE steps change: only the relationship list and, through \<open>addTable\<close>,
  the table map.\<close>

lemma edges_fold:
  "foldl (\<lambda>this table. addRelationship (t_name table) ''*'' cteName ''*'' ''cte'' this) this ts
   = this\<lparr>relationships := relationships this @ map (cte_edge cteName) ts\<rparr>"
proof (induction ts arbitrary: this)
  case Nil
  show ?case by simp
next
  case (Cons t ts)
  show ?case
    by (simp add: Cons.IH) (simp add: addRelationship_def cte_edge_def)
qed

lemma cte_step_fields:
  "tables (cte_step sub this (cteName, cteQuery)) = tables (addTable cteName None ''cte'' this)"
  "columns (cte_step sub this (cteName, cteQuery)) = columns this"
  "relationships (cte_step sub this (cteName, cteQuery))
     = relationships this @ map (cte_edge cteName) (returned_tables (sub cteQuery))"
  by (simp_all add: edges_fold)

declare cte_step.simps [simp del]

lemma addTable_tables_cong:
  "tables this = tables this' \<Longrightarrow>
   tables (addTable name al kind this) = tables (addTable name al kind this')"
  by (simp add: addTable_def Let_def)

lemma cte_steps_fields:
  "columns (foldl (cte_step sub) this matches) = columns this \<and>
   tables (foldl (cte_step sub) this matches)
     = tables (foldl (\<lambda>this (cteName, cteQuery). addTable cteName None ''cte'' this) this matches) \<and>
   relationships (foldl (cte_step sub) this matches)
     = relationships this @
       concat (map (\<lambda>(cteName, cteQuery). map (cte_edge cteName) (returned_tables (sub cteQuery)))
                 matches)"
proof -
  have t: "tables this = tables this' \<Longrightarrow>
     tables (foldl (cte_step sub) this matches)
       = tables (foldl (\<lambda>this (cteName, cteQuery). addTable cteName None ''cte'' this) this' matches)"
    for this this'
  proof (induction matches arbitrary: this this')
    case Nil
    then show ?case by simp
  next
    case (Cons m matches)
    obtain n b where m: "m = (n, b)" by (cases m)
    have "tables (cte_step sub this (n, b)) = tables (addTable n None ''cte'' this')"
      using Cons.prems by (simp only: cte_step_fields addTable_tables_cong [of this this'])
    from Cons.IH [OF this] show ?case by (simp add: m)
  qed
  have c: "columns (foldl (cte_step sub) this matches) = columns this"
  proof (induction matches arbitrary: this)
    case Nil
    show ?case by simp
  next
    case (Cons m matches)
    obtain n b where m: "m = (n, b)" by (cases m)
    show ?case unfolding m foldl_Cons Cons.IH by (simp only: cte_step_fields)
  qed
  have r: "relationships (foldl (cte_step sub) this matches)
     = relationships this @
       concat (map (\<lambda>(cteName, cteQuery). map (cte_edge cteName) (returned_tables (sub cteQuery)))
                 matches)"
  proof (induction matches arbitrary: this)
    case Nil
    show ?case by simp
  next
    case (Cons m matches)
    obtain n b where m: "m = (n, b)" by (cases m)
    show ?case unfolding m foldl_Cons Cons.IH by (simp add: cte_step_fields)
  qed
  from t [OF refl] c r show ?thesis by simp
qed

section \<open>Facts about the splitter\<close>

text \<open>The loop against the specification: \<open>current\<close> is the part of the first
  segment read so far.\<close>

lemma cut_where_nonempty: "cut_where P xs \<noteq> []"
  by (induction xs) (auto split: list.splits)

lemma depth_zero_segments_nonempty: "depth_zero_segments d k s \<noteq> []"
  by (simp add: depth_zero_segments_def cut_where_nonempty)

lemma depth_zero_segments_Nil: "depth_zero_segments d k [] = [[]]"
  by (simp add: depth_zero_segments_def)

lemma depth_zero_segments_cut:
  "depth_zero_segments d 0 (d # cs) = [] # depth_zero_segments d (depth_after d 0) cs"
  by (simp add: depth_zero_segments_def)

lemma depth_zero_segments_keep:
  assumes "\<not> (c = d \<and> k = 0)"
  shows "depth_zero_segments d k (c # cs) = prepend [c] (depth_zero_segments d (depth_after c k) cs)"
proof -
  let ?P = "\<lambda>(c, depth). c = d \<and> depth = (0::int)"
  obtain p ps where ps: "cut_where ?P (with_depth (depth_after c k) cs) = p # ps"
    using cut_where_nonempty [of ?P "with_depth (depth_after c k) cs"]
    by (cases "cut_where ?P (with_depth (depth_after c k) cs)") auto
  from assms show ?thesis
    by (auto simp: depth_zero_segments_def ps)
qed

lemma prepend_prepend:
  "segs \<noteq> [] \<Longrightarrow> prepend cur (prepend [c] segs) = prepend (cur @ [c]) segs"
  by (cases segs) auto

lemma prepend_empty: "segs \<noteq> [] \<Longrightarrow> prepend [] segs = segs"
  by (cases segs) auto

lemma smartSplit_loop_step:
  "smartSplit_loop delimiter (c # cs) result current k =
     (if c \<noteq> CHR ''('' \<and> c \<noteq> CHR '')'' \<and> c = delimiter \<and> k = 0
      then smartSplit_loop delimiter cs (result @ [trim current]) [] k
      else smartSplit_loop delimiter cs result (current @ [c]) (depth_after c k))"
  by (auto simp: depth_after_def)

lemma smartSplit_loop_spec:
  assumes "delimiter \<noteq> CHR ''(''" and "delimiter \<noteq> CHR '')''"
  shows "smartSplit_loop delimiter str result current k =
           (result @ map trim (butlast (prepend current (depth_zero_segments delimiter k str))),
            last (prepend current (depth_zero_segments delimiter k str)))"
proof (induction str arbitrary: result current k)
  case Nil
  show ?case by (simp add: depth_zero_segments_Nil)
next
  case (Cons c cs)
  show ?case
  proof (cases "c = delimiter \<and> k = 0")
    case True
    then have c: "c = delimiter" and k: "k = 0" by simp_all
    have same: "depth_after delimiter 0 = 0"
      using assms by (simp add: depth_after_def)
    let ?segs = "depth_zero_segments delimiter 0 cs"
    have ne: "?segs \<noteq> []" by (rule depth_zero_segments_nonempty)
    have segs: "depth_zero_segments delimiter k (c # cs) = [] # ?segs"
      unfolding c k by (simp only: depth_zero_segments_cut same)
    have "smartSplit_loop delimiter (c # cs) result current k
        = smartSplit_loop delimiter cs (result @ [trim current]) [] 0"
      using assms by (simp add: smartSplit_loop_step c k del: smartSplit_loop.simps)
    also have "\<dots> = ((result @ [trim current]) @ map trim (butlast ?segs), last ?segs)"
      using ne by (simp add: Cons.IH prepend_empty)
    also have "\<dots> = (result @ map trim (butlast (prepend current ([] # ?segs))),
                     last (prepend current ([] # ?segs)))"
      using ne by simp
    finally show ?thesis
      by (simp only: segs)
  next
    case False
    let ?segs = "depth_zero_segments delimiter (depth_after c k) cs"
    have ne: "?segs \<noteq> []" by (rule depth_zero_segments_nonempty)
    have segs: "depth_zero_segments delimiter k (c # cs) = prepend [c] ?segs"
      using False by (rule depth_zero_segments_keep)
    have "smartSplit_loop delimiter (c # cs) result current k
        = smartSplit_loop delimiter cs result (current @ [c]) (depth_after c k)"
      using False by (auto simp add: smartSplit_loop_step simp del: smartSplit_loop.simps)
    also have "\<dots> = (result @ map trim (butlast (prepend (current @ [c]) ?segs)),
                     last (prepend (current @ [c]) ?segs))"
      by (rule Cons.IH)
    also have "prepend (current @ [c]) ?segs = prepend current (prepend [c] ?segs)"
      using ne by (simp add: prepend_prepend)
    finally show ?thesis
      by (simp only: segs)
  qed
qed

text \<open>With a parenthesis as the delimiter the loop never reaches the test for the
  delimiter.\<close>

lemma smartSplit_loop_paren:
  assumes "delimiter = CHR ''('' \<or> delimiter = CHR '')''"
  shows "smartSplit_loop delimiter str result current k = (result, current @ str)"
proof (induction str arbitrary: current k)
  case Nil
  show ?case by simp
next
  case (Cons c cs)
  from assms have "c = delimiter \<Longrightarrow> c = CHR ''('' \<or> c = CHR '')''"
    by simp
  then show ?case
    by (auto simp: Cons.IH)
qed

lemma smartSplit_paren:
  assumes "delimiter = CHR ''('' \<or> delimiter = CHR '')''"
  shows "smartSplit str delimiter = (if trim str = [] then [] else [trim str])"
  by (simp add: smartSplit_def smartSplit_loop_paren [OF assms])

section \<open>Texts without the letters of the keywords\<close>





















section \<open>What the passes skip\<close>

















section \<open>The claims\<close>

subsection \<open>Absent and empty input\<close>

lemma empty_text: "cleanQuery_string [] = []"
  by (simp add: cleanQuery_string_def trim_def)

lemma first_passes_empty: "first_passes [] = new_SQLParser"
  by (simp add: first_passes_def parseSelectClause_def parseJoins_def parseFromClause_def)

lemma cte_matches_empty: "cte_matches [] = []"
  by (simp add: cte_matches_def)

text \<open>
  Claim C10.  For \<open>null\<close> and for \<open>undefined\<close>, \<open>parseQuery\<close> does not return a graph: it
  throws a TypeError, raised by \<open>cleanQuery\<close> before the state of the instance is reset
  or anything is extracted, so the instance is left as it was.  The empty string is told
  apart from them: it returns the empty graph, and the instance is reset.
\<close>

theorem parseQuery_absent_input:
  "parseQuery JSNull this = (Inl TypeError, this) \<and>
   parseQuery JSUndefined this = (Inl TypeError, this) \<and>
   parseQuery (JSString '''') this =
     (Inr \<lparr>g_tables = [], g_relationships = [], g_columns = []\<rparr>, new_SQLParser)"
proof -
  have "parseQuery (JSString '''') this = (Inr (graph_of new_SQLParser), new_SQLParser)"
    using parseQuery_no_cte [of "''''" this]
    by (simp add: empty_text first_passes_empty cte_matches_empty)
  then show ?thesis
    by (simp add: parseQuery_absent graph_of_def new_SQLParser_def map_values_def)
qed

subsection \<open>Determinism\<close>

text \<open>
  Claim C7.  \<open>parseQuery\<close> is deterministic and stateless: what it returns (or throws)
  does not depend on the state of the instance it is called on, and a call on an
  instance that has served any earlier call, on any other input, returns what a call on
  a new instance returns.  The result is a function of the input alone; being a value
  of the model, it carries the ids, the order and the fields.
\<close>

theorem parseQuery_deterministic:
  "fst (parseQuery sqlQuery this) = fst (parseQuery sqlQuery this') \<and>
   fst (parseQuery (JSString query) (snd (parseQuery other this))) =
     fst (parseQuery (JSString query) new_SQLParser)"
proof
  show "fst (parseQuery sqlQuery this) = fst (parseQuery sqlQuery this')"
  proof (cases sqlQuery)
    case (JSString query)
    then show ?thesis
      using parseQuery_state_independent [of query this this'] by simp
  qed (simp_all add: parseQuery_absent)
next
  show "fst (parseQuery (JSString query) (snd (parseQuery other this))) =
        fst (parseQuery (JSString query) new_SQLParser)"
    using parseQuery_state_independent [of query "snd (parseQuery other this)" new_SQLParser]
    by simp
qed

subsection \<open>Table registration\<close>

text \<open>
  Claim C9.  Table registration is first-write-wins.  Once a table is registered, a
  registration under the same id (alias if present, else cleaned name) is a no-op,
  whatever its name, alias and kind; and after any sequence of further registrations
  the entry stored under that id is still the entry of the first registration.
\<close>

theorem addTable_first_write_wins:
  assumes "table_id name' alias' = table_id name alias"
  shows "addTable name' alias' type' (addTable name alias type this)
           = addTable name alias type this \<and>
         map_of (tables (addTable name alias type this)) (table_id name alias) \<noteq> None \<and>
         map_of (tables (foldl (\<lambda>this (n, a, t). addTable n a t this)
                           (addTable name alias type this) registrations))
                (table_id name alias)
           = map_of (tables (addTable name alias type this)) (table_id name alias)"
proof -
  let ?first = "addTable name alias type this"
  have has: "map_has (tables ?first) (table_id name alias)"
    by (rule addTable_registers)
  then have "map_has (tables ?first) (table_id name' alias')"
    by (simp add: assms)
  then have noop: "addTable name' alias' type' ?first = ?first"
    by (rule addTable_present)
  from has obtain entry where entry: "map_of (tables ?first) (table_id name alias) = Some entry"
    by (auto simp: map_has_map_of)
  from registrations_keep_entry [OF entry, of registrations] entry noop
  show ?thesis by simp
qed

text \<open>The alias \<open>c\<close> declared twice, for \<open>bronze.customers\<close> and then for
  \<open>bronze.orders\<close> as a CTE, and two more registrations under the id \<open>c\<close>: the entry is
  that of \<open>bronze.customers\<close>.\<close>

theorem addTable_first_write_wins_witness:
  "table_id ''bronze.orders'' (Some ''c'') = table_id ''bronze.customers'' (Some ''c'') \<and>
   addTable ''bronze.orders'' (Some ''c'') ''cte''
     (addTable ''bronze.customers'' (Some ''c'') ''table'' new_SQLParser)
     = addTable ''bronze.customers'' (Some ''c'') ''table'' new_SQLParser \<and>
   map_of (tables (foldl (\<lambda>this (n, a, t). addTable n a t this)
                     (addTable ''bronze.customers'' (Some ''c'') ''table'' new_SQLParser)
                     [(''c'', None, ''cte''), (''x'', Some ''c'', ''table'')])) ''c''
     = Some \<lparr>t_id = ''c'', t_name = ''bronze.customers'', t_alias = Some ''c'',
              t_type = ''table'', t_columns = []\<rparr>"
proof -
  have h: "table_id ''bronze.orders'' (Some ''c'') = table_id ''bronze.customers'' (Some ''c'')"
    by (simp add: table_id_def)
  have e: "map_of (tables (addTable ''bronze.customers'' (Some ''c'') ''table'' new_SQLParser)) ''c''
       = Some \<lparr>t_id = ''c'', t_name = ''bronze.customers'', t_alias = Some ''c'',
              t_type = ''table'', t_columns = []\<rparr>"
    by (simp add: addTable_def table_id_def clean_name_def quote_chars_def new_SQLParser_def
          map_has_def Let_def)
  have i: "table_id ''bronze.customers'' (Some ''c'') = ''c''"
    by (simp add: table_id_def)
  from addTable_first_write_wins [OF h, of "''cte''" "''table''" new_SQLParser
         "[(''c'', None, ''cte''), (''x'', Some ''c'', ''table'')]"] h e i
  show ?thesis by simp
qed

subsection \<open>The examples of the specification\<close>

text \<open>
  The three patterns \<open>[^WHERE|JOIN|GROUP|ORDER|HAVING|LIMIT|;]+\<close> of the source are
  character classes: the text behind \<open>FROM\<close> or \<open>ON\<close> is read up to the first of the
  letters W, H, E, R, J, O, I, N, G, U, P, D, A, V, L, M, T (in either case), \<open>|\<close> or
  \<open>;\<close>, not up to the next keyword.  The examples below are evaluated on the code as it
  is.
\<close>

text \<open>
  Claim C2 (the code differs).  For \<open>FROM bronze.customers c\<close> the claim expects one table
  with id \<open>c\<close>, name \<open>bronze.customers\<close> and alias \<open>c\<close>.  The code returns one table with
  id \<open>b\<close>, name \<open>b\<close> and no alias: the FROM-list ends in front of the \<open>r\<close> of \<open>bronze\<close>.
  Given the whole list, \<open>extractTablesFromString\<close> registers the table the claim expects.
\<close>

theorem parseQuery_from_alias_example:
  "fst (parseQuery (JSString ''FROM bronze.customers c'') this) =
     Inr \<lparr>g_tables = [\<lparr>t_id = ''b'', t_name = ''b'', t_alias = None, t_type = ''table'',
                        t_columns = []\<rparr>],
          g_relationships = [], g_columns = []\<rparr> \<and>
   extractTablesFromString ''bronze.customers c'' new_SQLParser =
     \<lparr>tables = [(''c'', \<lparr>t_id = ''c'', t_name = ''bronze.customers'', t_alias = Some ''c'',
                            t_type = ''table'', t_columns = []\<rparr>)],
      relationships = [], columns = []\<rparr>"
proof
  show "fst (parseQuery (JSString ''FROM bronze.customers c'') this) =
     Inr \<lparr>g_tables = [\<lparr>t_id = ''b'', t_name = ''b'', t_alias = None, t_type = ''table'',
                        t_columns = []\<rparr>],
          g_relationships = [], g_columns = []\<rparr>"
  proof (rule parseQuery_eval_no_cte)
    show "cte_matches (cleanQuery_string ''FROM bronze.customers c'') = []"
      by code_simp
    show "graph_of (first_passes (cleanQuery_string ''FROM bronze.customers c'')) =
       \<lparr>g_tables = [\<lparr>t_id = ''b'', t_name = ''b'', t_alias = None, t_type = ''table'',
                          t_columns = []\<rparr>],
            g_relationships = [], g_columns = []\<rparr>"
      by code_simp
  qed
  show "extractTablesFromString ''bronze.customers c'' new_SQLParser =
     \<lparr>tables = [(''c'', \<lparr>t_id = ''c'', t_name = ''bronze.customers'', t_alias = Some ''c'',
                            t_type = ''table'', t_columns = []\<rparr>)],
      relationships = [], columns = []\<rparr>"
    by code_simp
qed

text \<open>
  Claim C3 (the code differs).  For \<open>FROM a JOIN b ON a.id = b.a_id\<close> the claim expects
  the tables \<open>a\<close> and \<open>b\<close> and one join relationship.  The code returns the empty graph:
  \<open>a\<close> is a letter of the class, so neither the pattern of \<open>parseFromClause\<close> nor the
  pattern of \<open>parseJoins\<close> matches.  Given the condition, \<open>parseJoinCondition\<close> adds the
  relationship the claim expects.
\<close>

theorem parseQuery_join_example:
  "fst (parseQuery (JSString ''FROM a JOIN b ON a.id = b.a_id'') this) =
     Inr \<lparr>g_tables = [], g_relationships = [], g_columns = []\<rparr> \<and>
   parseJoinCondition ''a.id = b.a_id'' new_SQLParser =
     \<lparr>tables = [],
      relationships = [\<lparr>r_id = ''a.id->b.a_id'', r_source = ''a'', r_sourceColumn = ''id'',
                          r_target = ''b'', r_targetColumn = ''a_id'', r_type = ''join''\<rparr>],
      columns = []\<rparr>"
proof
  show "fst (parseQuery (JSString ''FROM a JOIN b ON a.id = b.a_id'') this) =
     Inr \<lparr>g_tables = [], g_relationships = [], g_columns = []\<rparr>"
  proof (rule parseQuery_eval_no_cte)
    show "cte_matches (cleanQuery_string ''FROM a JOIN b ON a.id = b.a_id'') = []"
      by code_simp
    show "graph_of (first_passes (cleanQuery_string ''FROM a JOIN b ON a.id = b.a_id'')) =
       \<lparr>g_tables = [], g_relationships = [], g_columns = []\<rparr>"
      by code_simp
  qed
  show "parseJoinCondition ''a.id = b.a_id'' new_SQLParser =
     \<lparr>tables = [],
      relationships = [\<lparr>r_id = ''a.id->b.a_id'', r_source = ''a'', r_sourceColumn = ''id'',
                          r_target = ''b'', r_targetColumn = ''a_id'', r_type = ''join''\<rparr>],
      columns = []\<rparr>"
    by code_simp
qed

text \<open>
  Claim C4 (the code differs).  For \<open>SELECT t.foo, t.bar AS baz FROM t\<close> the code
  returns the columns \<open>t.foo\<close> and \<open>t.bar\<close> (alias \<open>baz\<close>), as the claim says, but no table:
  \<open>t\<close> is a letter of the class, \<open>FROM t\<close> does not match, the table \<open>t\<close> is never
  registered and the columns are attached to nothing.  With the table \<open>t\<close> registered,
  \<open>parseSelectColumns\<close> attaches both columns to it.
\<close>

theorem parseQuery_projection_example:
  "fst (parseQuery (JSString ''SELECT t.foo, t.bar AS baz FROM t'') this) =
     Inr \<lparr>g_tables = [], g_relationships = [],
          g_columns = [\<lparr>c_id = ''t.foo'', c_table = ''t'', c_name = ''foo'', c_alias = None,
                         c_type = ''column''\<rparr>,
                       \<lparr>c_id = ''t.bar'', c_table = ''t'', c_name = ''bar'',
                         c_alias = Some ''baz'', c_type = ''column''\<rparr>]\<rparr> \<and>
   tables (parseSelectColumns ''t.foo, t.bar AS baz''
             (addTable ''t'' None ''table'' new_SQLParser)) =
     [(''t'', \<lparr>t_id = ''t'', t_name = ''t'', t_alias = None, t_type = ''table'',
                t_columns = [\<lparr>tc_name = ''foo'', tc_alias = None\<rparr>,
                             \<lparr>tc_name = ''bar'', tc_alias = Some ''baz''\<rparr>]\<rparr>)]"
proof
  show "fst (parseQuery (JSString ''SELECT t.foo, t.bar AS baz FROM t'') this) =
     Inr \<lparr>g_tables = [], g_relationships = [],
          g_columns = [\<lparr>c_id = ''t.foo'', c_table = ''t'', c_name = ''foo'', c_alias = None,
                         c_type = ''column''\<rparr>,
                       \<lparr>c_id = ''t.bar'', c_table = ''t'', c_name = ''bar'',
                         c_alias = Some ''baz'', c_type = ''column''\<rparr>]\<rparr>"
  proof (rule parseQuery_eval_no_cte)
    show "cte_matches (cleanQuery_string ''SELECT t.foo, t.bar AS baz FROM t'') = []"
      by code_simp
    show "graph_of (first_passes (cleanQuery_string ''SELECT t.foo, t.bar AS baz FROM t'')) =
       \<lparr>g_tables = [], g_relationships = [],
            g_columns = [\<lparr>c_id = ''t.foo'', c_table = ''t'', c_name = ''foo'', c_alias = None,
                           c_type = ''column''\<rparr>,
                         \<lparr>c_id = ''t.bar'', c_table = ''t'', c_name = ''bar'',
                           c_alias = Some ''baz'', c_type = ''column''\<rparr>]\<rparr>"
      by code_simp
  qed
  show "tables (parseSelectColumns ''t.foo, t.bar AS baz''
             (addTable ''t'' None ''table'' new_SQLParser)) =
     [(''t'', \<lparr>t_id = ''t'', t_name = ''t'', t_alias = None, t_type = ''table'',
                t_columns = [\<lparr>tc_name = ''foo'', tc_alias = None\<rparr>,
                             \<lparr>tc_name = ''bar'', tc_alias = Some ''baz''\<rparr>]\<rparr>)]"
    by code_simp
qed

subsection \<open>The CTE example\<close>

lemma cte_example_body:
  "subParse ''SELECT * FROM src'' =
     Inr \<lparr>g_tables = [\<lparr>t_id = ''s'', t_name = ''s'', t_alias = None, t_type = ''table'',
                        t_columns = []\<rparr>],
          g_relationships = [], g_columns = []\<rparr>"
proof (rule subParse_eval_no_cte)
  show "cte_matches (cleanQuery_string ''SELECT * FROM src'') = []"
    by code_simp
  show "graph_of (first_passes (cleanQuery_string ''SELECT * FROM src'')) =
     \<lparr>g_tables = [\<lparr>t_id = ''s'', t_name = ''s'', t_alias = None, t_type = ''table'',
                        t_columns = []\<rparr>],
          g_relationships = [], g_columns = []\<rparr>"
    by code_simp
qed

lemma cte_example_passes:
  "first_passes (cleanQuery_string ''WITH x AS (SELECT * FROM src) SELECT * FROM x'') =
     \<lparr>tables = [(''s'', \<lparr>t_id = ''s'', t_name = ''s'', t_alias = None, t_type = ''table'',
                            t_columns = []\<rparr>),
                 (''x'', \<lparr>t_id = ''x'', t_name = ''x'', t_alias = None, t_type = ''table'',
                            t_columns = []\<rparr>)],
      relationships = [], columns = []\<rparr>"
  by code_simp

lemma cte_example_matches:
  "cte_matches (cleanQuery_string ''WITH x AS (SELECT * FROM src) SELECT * FROM x'') =
     [(''x'', ''SELECT * FROM src'')]"
  by code_simp

lemma cte_example_graph:
  "fst (parseQuery (JSString ''WITH x AS (SELECT * FROM src) SELECT * FROM x'') this) =
     Inr \<lparr>g_tables = [\<lparr>t_id = ''s'', t_name = ''s'', t_alias = None, t_type = ''table'',
                        t_columns = []\<rparr>,
                      \<lparr>t_id = ''x'', t_name = ''x'', t_alias = None, t_type = ''table'',
                        t_columns = []\<rparr>],
          g_relationships = [\<lparr>r_id = ''s.*->x.*'', r_source = ''s'', r_sourceColumn = ''*'',
                                r_target = ''x'', r_targetColumn = ''*'', r_type = ''cte''\<rparr>],
          g_columns = []\<rparr>"
  by (simp add: parseQuery_result after_ctes_def cte_example_matches cte_example_passes
        cte_example_body cte_step.simps returned_tables_def addTable_def addRelationship_def
        table_id_def clean_name_def quote_chars_def map_has_def graph_of_def map_values_def
        Let_def)

text \<open>
  Claim C1, as stated, fails on the code.  For
  \<open>WITH x AS (SELECT * FROM src) SELECT * FROM x\<close> the returned graph has the tables \<open>s\<close>
  and \<open>x\<close>, both of kind \<open>table\<close>, and one relationship, from \<open>s\<close> to \<open>x\<close>, whose type is
  \<open>cte\<close>: no table \<open>src\<close>, no table of kind \<open>cte\<close>, no relationship of type \<open>flow\<close>.
\<close>

theorem parseQuery_cte_example_counterexample:
  "fst (parseQuery (JSString ''WITH x AS (SELECT * FROM src) SELECT * FROM x'') new_SQLParser) =
     Inr \<lparr>g_tables = [\<lparr>t_id = ''s'', t_name = ''s'', t_alias = None, t_type = ''table'',
                        t_columns = []\<rparr>,
                      \<lparr>t_id = ''x'', t_name = ''x'', t_alias = None, t_type = ''table'',
                        t_columns = []\<rparr>],
          g_relationships = [\<lparr>r_id = ''s.*->x.*'', r_source = ''s'', r_sourceColumn = ''*'',
                                r_target = ''x'', r_targetColumn = ''*'', r_type = ''cte''\<rparr>],
          g_columns = []\<rparr>"
  by (rule cte_example_graph)

text \<open>
  Claim C1, amended.  For \<open>WITH x AS (SELECT * FROM src) SELECT * FROM x\<close>, \<open>parseQuery\<close>
  returns a graph that contains a table with id \<open>x\<close> and exactly one relationship, with
  sourceColumn \<open>*\<close>, target \<open>x\<close>, targetColumn \<open>*\<close> and type \<open>cte\<close> (the type that
  \<open>parseCTEs\<close> passes to \<open>addRelationship\<close>); its source is the name of the one table
  that the sub-parse of the body \<open>SELECT * FROM src\<close> returns.
\<close>

theorem parseQuery_cte_example:
  "\<exists>g. fst (parseQuery (JSString ''WITH x AS (SELECT * FROM src) SELECT * FROM x'') this) = Inr g \<and>
       ''x'' \<in> set (map t_id (g_tables g)) \<and>
       map (\<lambda>r. (r_sourceColumn r, r_target r, r_targetColumn r, r_type r)) (g_relationships g)
         = [(''*'', ''x'', ''*'', ''cte'')] \<and>
       map r_source (g_relationships g)
         = map t_name (returned_tables (subParse ''SELECT * FROM src''))"
  by (simp add: cte_example_graph cte_example_body returned_tables_def)

subsection \<open>What a CTE contributes to the parent's graph\<close>

lemma leak_example_body:
  "subParse ''SELECT k.c FROM k WHERE k.c = 1'' =
     Inr \<lparr>g_tables = [\<lparr>t_id = ''k'', t_name = ''k'', t_alias = None, t_type = ''table'',
                        t_columns = [\<lparr>tc_name = ''c'', tc_alias = None\<rparr>]\<rparr>],
          g_relationships = [],
          g_columns = [\<lparr>c_id = ''k.c'', c_table = ''k'', c_name = ''c'', c_alias = None,
                         c_type = ''column''\<rparr>]\<rparr>"
proof (rule subParse_eval_no_cte)
  show "cte_matches (cleanQuery_string ''SELECT k.c FROM k WHERE k.c = 1'') = []"
    by code_simp
  show "graph_of (first_passes (cleanQuery_string ''SELECT k.c FROM k WHERE k.c = 1'')) =
     \<lparr>g_tables = [\<lparr>t_id = ''k'', t_name = ''k'', t_alias = None, t_type = ''table'',
                        t_columns = [\<lparr>tc_name = ''c'', tc_alias = None\<rparr>]\<rparr>],
          g_relationships = [],
          g_columns = [\<lparr>c_id = ''k.c'', c_table = ''k'', c_name = ''c'', c_alias = None,
                         c_type = ''column''\<rparr>]\<rparr>"
    by code_simp
qed

lemma leak_example_passes:
  "first_passes
     (cleanQuery_string ''WITH x AS (SELECT k.c FROM k WHERE k.c = 1) SELECT * FROM x'') =
     \<lparr>tables = [(''k'', \<lparr>t_id = ''k'', t_name = ''k'', t_alias = None, t_type = ''table'',
                            t_columns = [\<lparr>tc_name = ''c'', tc_alias = None\<rparr>]\<rparr>),
                 (''x'', \<lparr>t_id = ''x'', t_name = ''x'', t_alias = None, t_type = ''table'',
                            t_columns = []\<rparr>)],
      relationships = [],
      columns = [(''k.c'', \<lparr>c_id = ''k.c'', c_table = ''k'', c_name = ''c'', c_alias = None,
                              c_type = ''column''\<rparr>)]\<rparr>"
  by code_simp

lemma leak_example_matches:
  "cte_matches
     (cleanQuery_string ''WITH x AS (SELECT k.c FROM k WHERE k.c = 1) SELECT * FROM x'') =
     [(''x'', ''SELECT k.c FROM k WHERE k.c = 1'')]"
  by code_simp

text \<open>
  Claim C5, as stated, fails on the code.  In
  \<open>WITH x AS (SELECT k.c FROM k WHERE k.c = 1) SELECT * FROM x\<close> the sub-parse of the body
  finds the table \<open>k\<close> and the column \<open>k.c\<close>, and both are in the parent's graph as well:
  the parent's own FROM and SELECT patterns run over the whole text, the body included.
\<close>

theorem parseCTEs_frame_counterexample:
  "subParse ''SELECT k.c FROM k WHERE k.c = 1'' =
     Inr \<lparr>g_tables = [\<lparr>t_id = ''k'', t_name = ''k'', t_alias = None, t_type = ''table'',
                        t_columns = [\<lparr>tc_name = ''c'', tc_alias = None\<rparr>]\<rparr>],
          g_relationships = [],
          g_columns = [\<lparr>c_id = ''k.c'', c_table = ''k'', c_name = ''c'', c_alias = None,
                         c_type = ''column''\<rparr>]\<rparr> \<and>
   fst (parseQuery
          (JSString ''WITH x AS (SELECT k.c FROM k WHERE k.c = 1) SELECT * FROM x'')
          new_SQLParser) =
     Inr \<lparr>g_tables = [\<lparr>t_id = ''k'', t_name = ''k'', t_alias = None, t_type = ''table'',
                        t_columns = [\<lparr>tc_name = ''c'', tc_alias = None\<rparr>]\<rparr>,
                      \<lparr>t_id = ''x'', t_name = ''x'', t_alias = None, t_type = ''table'',
                        t_columns = []\<rparr>],
          g_relationships = [\<lparr>r_id = ''k.*->x.*'', r_source = ''k'', r_sourceColumn = ''*'',
                                r_target = ''x'', r_targetColumn = ''*'', r_type = ''cte''\<rparr>],
          g_columns = [\<lparr>c_id = ''k.c'', c_table = ''k'', c_name = ''c'', c_alias = None,
                         c_type = ''column''\<rparr>]\<rparr>"
  by (simp add: parseQuery_result after_ctes_def leak_example_matches leak_example_passes
        leak_example_body cte_step.simps returned_tables_def addTable_def addRelationship_def
        table_id_def clean_name_def quote_chars_def map_has_def graph_of_def map_values_def
        Let_def)

text \<open>
  Claim C5, amended.  The CTE resolver copies nothing of a sub-result into the parent
  but one edge for each of its tables.  For every query, the columns of the returned
  graph are those of the parent's own projection pass; its tables are those of the
  parent's own FROM and JOIN passes, followed by one entry of kind \<open>cte\<close> for each CTE
  name not registered before; its relationships are those of the parent's own JOIN pass,
  followed by the edges of the CTEs.  (The parent's passes read the whole text, so what
  stands in a CTE body can reach the parent's graph through them.)
\<close>

theorem parseCTEs_frame:
  "fst (parseQuery (JSString query) this) =
     Inr \<lparr>g_tables =
            map_values (tables (foldl (\<lambda>this (cteName, cteQuery). addTable cteName None ''cte'' this)
                                  (first_passes (cleanQuery_string query))
                                  (cte_matches (cleanQuery_string query)))),
          g_relationships =
            relationships (first_passes (cleanQuery_string query)) @
            concat (map (\<lambda>(cteName, cteQuery).
                           map (cte_edge cteName) (returned_tables (subParse cteQuery)))
                      (cte_matches (cleanQuery_string query))),
          g_columns = map_values (columns (first_passes (cleanQuery_string query)))\<rparr>"
  by (simp add: parseQuery_result graph_of_def after_ctes_def cte_steps_fields)

subsection \<open>The depth-aware splitter\<close>

text \<open>
  Claim C8, as stated, fails on the code when the delimiter is a parenthesis: the loop
  tests for \<open>(\<close> and \<open>)\<close> before it tests for the delimiter, so it never splits at
  one.  In \<open>(a)b)c\<close> with the delimiter \<open>)\<close> the second \<open>)\<close> stands at depth zero (and
  the first one brings the depth back to zero), but the loop returns the whole string as
  one segment.
\<close>

theorem smartSplit_spec_counterexample:
  "smartSplit ''(a)b)c'' CHR '')'' = [''(a)b)c''] \<and>
   spec_split ''(a)b)c'' CHR '')'' = [''(a)b'', ''c'']"
  by code_simp

text \<open>
  Claim C8, amended.  For every string and every delimiter character other than \<open>(\<close> and
  \<open>)\<close>, \<open>smartSplit\<close> returns the trimmed segments obtained by splitting at exactly the
  occurrences of the delimiter where the running parenthesis depth (one more after each
  \<open>(\<close>, one less after each \<open>)\<close>, possibly negative) is zero; the segment after the last
  split is emitted when it is not empty after trimming, and left out otherwise.  When
  the delimiter is \<open>(\<close> or \<open>)\<close>, \<open>smartSplit\<close> never splits: for every string it returns
  the trimmed string as the only segment, or nothing when that is empty.
\<close>

theorem smartSplit_spec:
  "(delimiter \<noteq> CHR ''('' \<and> delimiter \<noteq> CHR '')'' \<longrightarrow>
      smartSplit str delimiter = spec_split str delimiter) \<and>
   (delimiter = CHR ''('' \<or> delimiter = CHR '')'' \<longrightarrow>
      smartSplit str delimiter = (if trim str = [] then [] else [trim str]))"
proof (intro conjI impI)
  assume "delimiter \<noteq> CHR ''('' \<and> delimiter \<noteq> CHR '')''"
  then have a: "delimiter \<noteq> CHR ''(''" and b: "delimiter \<noteq> CHR '')''" by simp_all
  show "smartSplit str delimiter = spec_split str delimiter"
    using depth_zero_segments_nonempty [of delimiter 0 str]
    by (simp add: smartSplit_def spec_split_def smartSplit_loop_spec [OF a b] prepend_empty Let_def)
next
  assume "delimiter = CHR ''('' \<or> delimiter = CHR '')''"
  then show "smartSplit str delimiter = (if trim str = [] then [] else [trim str])"
    by (rule smartSplit_paren)
qed

text \<open>The delimiter \<open>,\<close>: a comma inside parentheses does not split, an empty segment
  between two commas is kept, an empty last segment is not.  The delimiters \<open>(\<close> and
  \<open>)\<close>: one segment, or none.\<close>

theorem smartSplit_spec_witness:
  "(CHR '','' \<noteq> CHR ''('' \<and> CHR '','' \<noteq> CHR '')'') \<and>
   smartSplit ''a.x, f(b, c) , d,  '' CHR '','' = [''a.x'', ''f(b, c)'', ''d''] \<and>
   smartSplit ''a,,b, '' CHR '','' = [''a'', [], ''b''] \<and>
   (CHR ''('' = CHR ''('' \<or> CHR ''('' = CHR '')'') \<and>
   smartSplit '' f(x), g(y) '' CHR ''('' = [''f(x), g(y)''] \<and>
   (CHR '')'' = CHR ''('' \<or> CHR '')'' = CHR '')'') \<and>
   smartSplit ''a)b'' CHR '')'' = [''a)b''] \<and>
   smartSplit ''  '' CHR '')'' = []"
proof -
  have a: "CHR '','' \<noteq> CHR ''('' \<and> CHR '','' \<noteq> CHR '')''" by simp
  have c: "spec_split ''a.x, f(b, c) , d,  '' CHR '','' = [''a.x'', ''f(b, c)'', ''d'']"
    by code_simp
  have d: "spec_split ''a,,b, '' CHR '','' = [''a'', [], ''b'']"
    by code_simp
  have t1: "trim '' f(x), g(y) '' = ''f(x), g(y)''" by code_simp
  have t2: "trim ''a)b'' = ''a)b''" by code_simp
  have t3: "trim ''  '' = []" by code_simp
  from smartSplit_spec [of "CHR '',''" "''a.x, f(b, c) , d,  ''"]
       smartSplit_spec [of "CHR '',''" "''a,,b, ''"]
       smartSplit_spec [of "CHR ''(''" "'' f(x), g(y) ''"]
       smartSplit_spec [of "CHR '')''" "''a)b''"]
       smartSplit_spec [of "CHR '')''" "''  ''"]
       a c d t1 t2 t3
  show ?thesis by simp
qed

subsection \<open>No error on any text\<close>




end
